theory Spec2Isabelle
  imports Main "HOL-Library.AList"
begin

section \<open>The state manager of src/state/state.manager.ts\<close>

text \<open>
  The class \<open>StateManager\<close> owns a JavaScript \<open>Map\<close> from store names to \<open>Store\<close>
  objects and a private rxjs \<open>Subject\<close> called \<open>destroy$\<close>.  The manager is embedded
  as a record that is passed through every operation and returned updated.  A method
  that can throw returns a sum, \<open>Inl\<close> carrying the thrown error.  An \<open>async\<close>
  method is run to completion: the model has no step between an \<open>await\<close> and its
  continuation, so it says nothing about events that arrive while a refresh is pending.
\<close>

subsection \<open>Values and errors\<close>

text \<open>
  The values held by stores are JavaScript values; the fragment needed here has numbers,
  strings and objects with named fields.
\<close>

datatype val = Undefined | Num int | Str string | Obj "(string \<times> val) list"

text \<open>\<open>Error msg\<close> is the JavaScript object \<open>Error(msg)\<close>.\<close>

datatype error = Error string

subsection \<open>The rxjs Subject behind \<open>destroy$\<close>\<close>

text \<open>
  rxjs is a library and not part of the repository.  Of a \<open>Subject<void>\<close> the model
  keeps how many notifications it has delivered and whether it has been stopped.
  \<open>next\<close> on a stopped subject delivers nothing and does not throw; \<open>complete\<close> stops
  the subject and does not throw either (only a subject that was \<open>unsubscribe\<close>d
  throws, and the manager never does that).
\<close>

record subject =
  emitted :: nat
  isStopped :: bool

definition new_subject :: subject where
  "new_subject = \<lparr>emitted = 0, isStopped = False\<rparr>"

definition subject_next :: "subject \<Rightarrow> subject" where
  "subject_next d = (if isStopped d then d else d\<lparr>emitted := Suc (emitted d)\<rparr>)"

definition subject_complete :: "subject \<Rightarrow> subject" where
  "subject_complete d = d\<lparr>isStopped := True\<rparr>"

subsection \<open>The Store contract\<close>

text \<open>
  The class \<open>Store\<close> of \<open>state.utils\<close>, the store classes of \<open>stores\<close> and the
  \<open>PlayerClient\<close> are not among the sources; the manager only calls them.  The
  definitions of this subsection follow sections 3 and 4.2 of the spec.
\<close>

text \<open>
  Modelled from the spec: the \<open>PlayerClient\<close>, the remote-connection collaborator that
  a store's \<open>refresh()\<close> pulls from.  It is represented by the answer the remote player
  gives to the pull of each store: a value, or a failure.
\<close>

type_synonym player_client = "string \<Rightarrow> error + val"

text \<open>
  Modelled from the spec: one subscription on a store's change-notification channel,
  with the sub-field it is narrowed to and the values it has been handed so far.
\<close>

record subscriber =
  sub_key :: "string option"
  received :: "val list"

text \<open>
  Modelled from the spec: a \<open>Store\<close> has a name, a current value, a built-in default
  and a change-notification channel, and is constructed with a reference to the client.
\<close>

record store =
  name :: string
  current :: val
  initial :: val
  remote :: player_client
  subscribers :: "subscriber list"

text \<open>
  Modelled from the spec: \<open>get(key?)\<close> reads the current value, or the named
  sub-field of a composite value.  \<open>sub_field\<close> is that projection.
\<close>

fun sub_field :: "string option \<Rightarrow> val \<Rightarrow> val" where
  "sub_field None v = v"
| "sub_field (Some k) (Obj fs) = (case map_of fs k of Some x \<Rightarrow> x | None \<Rightarrow> Undefined)"
| "sub_field (Some k) v = Undefined"

text \<open>Modelled from the spec: \<open>Store.get(key?)\<close>.\<close>

definition store_get :: "string option \<Rightarrow> store \<Rightarrow> val" where
  "store_get key s = sub_field key (current s)"

text \<open>
  Modelled from the spec: the change-notification channel hands a new value to a
  subscription, narrowed to the subscription's key.
\<close>

definition notify :: "val \<Rightarrow> subscriber \<Rightarrow> subscriber" where
  "notify v sb = sb\<lparr>received := received sb @ [sub_field (sub_key sb) v]\<rparr>"

text \<open>
  Modelled from the spec: \<open>Store.set(value)\<close> overwrites the current value and notifies
  every subscription.
\<close>

definition store_set :: "val \<Rightarrow> store \<Rightarrow> store" where
  "store_set v s = s\<lparr>current := v, subscribers := map (notify v) (subscribers s)\<rparr>"

text \<open>
  Modelled from the spec: \<open>Store.reset()\<close> restores the built-in default,
  synchronously.
\<close>

definition store_reset :: "store \<Rightarrow> store" where
  "store_reset s = store_set (initial s) s"

text \<open>
  Modelled from the spec: \<open>Store.refresh()\<close> pulls the current state from the remote
  source and updates the value; a failed pull is raised to the caller and leaves the
  store as it was.
\<close>

definition store_refresh :: "store \<Rightarrow> (error + unit) \<times> store" where
  "store_refresh s =
     (case remote s (name s) of
        Inl e \<Rightarrow> (Inl e, s)
      | Inr v \<Rightarrow> (Inr (), store_set v s))"

text \<open>
  Modelled from the spec: the observable that \<open>Store.select(key?)\<close> yields, a stream of
  the store's value changes, optionally narrowed to one sub-field.  It is represented
  by the store it reads and the key.
\<close>

record observable =
  source :: string
  narrowed :: "string option"

text \<open>Modelled from the spec: \<open>Store.select(key?)\<close>.\<close>

definition store_select :: "string option \<Rightarrow> store \<Rightarrow> observable" where
  "store_select key s = \<lparr>source = name s, narrowed = key\<rparr>"

text \<open>
  Modelled from the spec: subscribing to the observable of a store adds a subscription
  to the store's change-notification channel; it has been handed nothing yet.
\<close>

definition store_subscribe :: "string option \<Rightarrow> store \<Rightarrow> store" where
  "store_subscribe key s = s\<lparr>subscribers := subscribers s @ [\<lparr>sub_key = key, received = []\<rparr>]\<rparr>"

text \<open>
  Modelled from the spec: a store type (an element of \<open>ALL_STORES\<close>) exposes,
  statically, the canonical registration name (\<open>STORE_CONFIG.name\<close>) and determines the
  built-in default of its instances.
\<close>

record store_type =
  config_name :: string
  default_state :: val

text \<open>
  Modelled from the spec: \<open>new type(client)\<close>, a store that holds its default, keeps
  the reference to the client and has no subscription yet.
\<close>

definition new_store :: "player_client \<Rightarrow> store_type \<Rightarrow> store" where
  "new_store c t =
     \<lparr>name = config_name t, current = default_state t, initial = default_state t,
      remote = c, subscribers = []\<rparr>"

subsection \<open>The manager\<close>

text \<open>
  An identifier is a plain name or a store type (\<open>string | Type<S>\<close>).
\<close>

datatype ident = ByName string | ByType store_type

text \<open>
  The calls the manager makes on its stores are recorded in call order in the field
  \<open>calls\<close>; this field is not in the source, it is there so that the number and the
  order of the invocations can be stated.
\<close>

datatype call = Refresh string | Reset string | Set string val

text \<open>
  \<open>stores\<close> is the \<open>Map<string, Store>\<close>: an association list in insertion order.
  \<open>Map.set\<close> is \<open>AList.update\<close> (replace in place, or append), \<open>Map.get\<close> and
  \<open>Map.has\<close> are \<open>map_of\<close>.  A method call that mutates the store object held
  under a key is \<open>AList.map_entry\<close> at that key.
\<close>

record manager =
  client :: player_client
  stores :: "(string \<times> store) list"
  destroy_signal :: subject
  calls :: "call list"

definition getStoreNameByType :: "store_type \<Rightarrow> string" where
  "getStoreNameByType t = config_name t"

definition hasStore :: "ident \<Rightarrow> manager \<Rightarrow> bool" where
  "hasStore nameOrType m =
     (let n = (case nameOrType of ByName s \<Rightarrow> s | ByType t \<Rightarrow> getStoreNameByType t)
      in map_of (stores m) n \<noteq> None)"

text \<open>The message of line 56: \<open>Store '${nameOrType}' does not exist!\<close>.\<close>

definition does_not_exist :: "string \<Rightarrow> error" where
  "does_not_exist n = Error (''Store '' @ [CHR 0x27] @ n @ [CHR 0x27] @ '' does not exist!'')"

definition getStore :: "ident \<Rightarrow> manager \<Rightarrow> error + store" where
  "getStore nameOrType m =
     (let n = (case nameOrType of ByName s \<Rightarrow> s | ByType t \<Rightarrow> getStoreNameByType t)
      in if \<not> hasStore (ByName n) m then Inl (does_not_exist n)
         else Inr (the (map_of (stores m) n)))"

definition get :: "ident \<Rightarrow> string option \<Rightarrow> manager \<Rightarrow> error + val" where
  "get nameOrType key m =
     (case getStore nameOrType m of
        Inl e \<Rightarrow> Inl e
      | Inr st \<Rightarrow> Inr (store_get key st))"

definition select :: "ident \<Rightarrow> string option \<Rightarrow> manager \<Rightarrow> error + observable" where
  "select nameOrType key m =
     (case getStore nameOrType m of
        Inl e \<Rightarrow> Inl e
      | Inr st \<Rightarrow> Inr (store_select key st))"

text \<open>
  The loop of lines 33 to 35: each store's \<open>refresh()\<close> is awaited before the next one
  starts, and a rejection leaves the loop.  The result is the outcome, the stores
  after the loop and the calls made.
\<close>

fun refresh_each ::
  "(string \<times> store) list \<Rightarrow> (error + unit) \<times> (string \<times> store) list \<times> call list" where
  "refresh_each [] = (Inr (), [], [])"
| "refresh_each ((n, s) # rest) =
     (case store_refresh s of
        (Inl e, s') \<Rightarrow> (Inl e, (n, s') # rest, [Refresh n])
      | (Inr u, s') \<Rightarrow>
          (case refresh_each rest of
             (r, rest', cs) \<Rightarrow> (r, (n, s') # rest', Refresh n # cs)))"

text \<open>
  \<open>refresh(storeName?)\<close>.  The test of line 29 is JavaScript truthiness: \<open>undefined\<close>
  and the empty string both take the \<open>else\<close> branch.
\<close>

definition refresh :: "string option \<Rightarrow> manager \<Rightarrow> (error + unit) \<times> manager" where
  "refresh storeName m =
     (if storeName \<noteq> None \<and> storeName \<noteq> Some [] then
        (case getStore (ByName (the storeName)) m of
           Inl e \<Rightarrow> (Inl e, m)
         | Inr st \<Rightarrow>
             (case store_refresh st of
                (r, st') \<Rightarrow>
                  (r, m\<lparr>stores := AList.update (the storeName) st' (stores m),
                        calls := calls m @ [Refresh (the storeName)]\<rparr>)))
      else
        (case refresh_each (stores m) of
           (r, ss, cs) \<Rightarrow> (r, m\<lparr>stores := ss, calls := calls m @ cs\<rparr>)))"

definition reset :: "manager \<Rightarrow> manager" where
  "reset m =
     m\<lparr>stores := map (\<lambda>(n, s). (n, store_reset s)) (stores m),
       calls := calls m @ map (\<lambda>(n, s). Reset n) (stores m)\<rparr>"

definition destroy :: "manager \<Rightarrow> manager" where
  "destroy m =
     (let m1 = reset m
      in m1\<lparr>destroy_signal := subject_complete (subject_next (destroy_signal m1))\<rparr>)"

text \<open>The private \<open>set(storeName, value)\<close> of lines 101 to 106.\<close>

definition set_value :: "string \<Rightarrow> val \<Rightarrow> manager \<Rightarrow> manager" where
  "set_value storeName v m =
     (if map_of (stores m) storeName \<noteq> None
      then m\<lparr>stores := AList.map_entry storeName (store_set v) (stores m),
             calls := calls m @ [Set storeName v]\<rparr>
      else m)"

text \<open>
  \<open>initialize(types)\<close>: one instance per type, saved under the type's canonical name.
  The registration list \<open>ALL_STORES\<close> is not among the sources; it is the parameter
  of \<open>constructor\<close>.
\<close>

fun create_instances :: "store_type list \<Rightarrow> manager \<Rightarrow> manager" where
  "create_instances [] m = m"
| "create_instances (t # ts) m =
     create_instances ts
       (m\<lparr>stores := AList.update (getStoreNameByType t) (new_store (client m) t) (stores m)\<rparr>)"

definition initialize :: "store_type list \<Rightarrow> manager \<Rightarrow> manager" where
  "initialize types m = create_instances types m"

definition constructor :: "player_client \<Rightarrow> store_type list \<Rightarrow> manager" where
  "constructor c all_stores =
     initialize all_stores \<lparr>client = c, stores = [], destroy_signal = new_subject, calls = []\<rparr>"

subsection \<open>Inbound events\<close>

text \<open>
  The four channels of the client that \<open>subscribeEvents\<close> listens to.  Every one of the
  four subscriptions is piped through \<open>takeUntil(this.destroy$)\<close>, so it handles events
  as long as \<open>destroy$\<close> has delivered no notification.
\<close>

datatype event =
    Connect
  | EventState string val
  | EventReset string val
  | EventEntity string

definition events_live :: "manager \<Rightarrow> bool" where
  "events_live m = (emitted (destroy_signal m) = 0)"

text \<open>
  What the subscriptions of \<open>subscribeEvents\<close> do with one inbound event.  The promise
  returned by \<open>this.refresh(...)\<close> in a subscriber is dropped, and with it the outcome.
\<close>

fun subscribeEvents :: "event \<Rightarrow> manager \<Rightarrow> manager" where
  "subscribeEvents Connect m =
     (if events_live m then snd (refresh None m) else m)"
| "subscribeEvents (EventState n v) m =
     (if events_live m \<and> hasStore (ByName n) m then set_value n v m else m)"
| "subscribeEvents (EventReset n v) m =
     (if events_live m \<and> hasStore (ByName n) m then set_value n v m else m)"
| "subscribeEvents (EventEntity n) m =
     (if events_live m \<and> hasStore (ByName n) m then snd (refresh (Some n) m) else m)"

text \<open>
  The application subscribing to an observable obtained from \<open>select\<close>, and the values
  that subscription number \<open>i\<close> of store \<open>n\<close> has been handed.
\<close>

definition subscribe :: "observable \<Rightarrow> manager \<Rightarrow> manager" where
  "subscribe ob m =
     m\<lparr>stores := AList.map_entry (source ob) (store_subscribe (narrowed ob)) (stores m)\<rparr>"

definition deliveries :: "string \<Rightarrow> nat \<Rightarrow> manager \<Rightarrow> val list" where
  "deliveries n i m =
     (case map_of (stores m) n of
        None \<Rightarrow> []
      | Some s \<Rightarrow> if i < length (subscribers s) then received (subscribers s ! i) else [])"

text \<open>The current value of every store, in registry order.\<close>

definition snapshot :: "manager \<Rightarrow> (string \<times> val) list" where
  "snapshot m = map (\<lambda>(n, s). (n, current s)) (stores m)"

text \<open>The subscriptions attached to every store, each given by the key it is narrowed to.\<close>

definition subscriptions :: "manager \<Rightarrow> (string \<times> string option list) list" where
  "subscriptions m = map (\<lambda>(n, s). (n, map sub_key (subscribers s))) (stores m)"

text \<open>
  The name an identifier resolves to: the identifier itself, or the canonical name of
  the store type (lines 52 to 54 and 66 to 68).
\<close>

definition resolved_name :: "ident \<Rightarrow> string" where
  "resolved_name x = (case x of ByName s \<Rightarrow> s | ByType t \<Rightarrow> getStoreNameByType t)"

text \<open>A store whose \<open>refresh()\<close>, called now, would resolve.\<close>

definition pull_ok :: "store \<Rightarrow> bool" where
  "pull_ok s = (fst (store_refresh s) = Inr ())"

subsection \<open>Example registries\<close>

text \<open>
  The registry of the spec's example, with the stores \<open>volume\<close> (default 50) and
  \<open>playback\<close> (default \<open>"stopped"\<close>), in front of a player that answers every pull
  with 80.
\<close>

definition volume_type :: store_type where
  "volume_type = \<lparr>config_name = ''volume'', default_state = Num 50\<rparr>"

definition playback_type :: store_type where
  "playback_type = \<lparr>config_name = ''playback'', default_state = Str ''stopped''\<rparr>"

definition demo_client :: player_client where
  "demo_client n = Inr (Num 80)"

definition example_registry :: manager where
  "example_registry = constructor demo_client [volume_type, playback_type]"

text \<open>The same stores in front of a player whose answer to the pull of \<open>volume\<close> fails.\<close>

definition failing_client :: player_client where
  "failing_client n = (if n = ''volume'' then Inl (Error ''timeout'') else Inr (Num 80))"

definition failing_registry :: manager where
  "failing_registry = constructor failing_client [volume_type, playback_type]"

text \<open>A registry whose first store type has the empty string as its canonical name.\<close>

definition unnamed_type :: store_type where
  "unnamed_type = \<lparr>config_name = [], default_state = Num 1\<rparr>"

definition unnamed_registry :: manager where
  "unnamed_registry = constructor demo_client [unnamed_type, volume_type]"

text \<open>The observable that \<open>select("volume")\<close> yields.\<close>

definition volume_changes :: observable where
  "volume_changes = \<lparr>source = ''volume'', narrowed = None\<rparr>"

section \<open>Properties\<close>

subsection \<open>The store map\<close>

lemma map_fst_map_entry: "map fst (AList.map_entry k f xs) = map fst xs"
  by (induction xs) auto

lemma map_fst_update_present:
  "map_of xs k = Some v \<Longrightarrow> map fst (AList.update k v' xs) = map fst xs"
  by (auto simp: AList.update_keys dest: map_of_SomeD intro: rev_image_eqI)

lemma getStore_Inr: "getStore (ByName n) m = Inr st \<Longrightarrow> map_of (stores m) n = Some st"
  by (auto simp: getStore_def hasStore_def split: if_splits)

lemma getStore_has:
  "hasStore (ByName n) m \<Longrightarrow> getStore (ByName n) m = Inr (the (map_of (stores m) n))"
  by (simp add: getStore_def)

lemma getStore_missing:
  "\<not> hasStore (ByName n) m \<Longrightarrow> getStore (ByName n) m = Inl (does_not_exist n)"
  by (simp add: getStore_def)

subsection \<open>The refresh loop\<close>

lemma names_refresh_each: "map fst (fst (snd (refresh_each xs))) = map fst xs"
  by (induction xs rule: refresh_each.induct) (auto split: prod.splits sum.splits)

lemma refresh_each_all_ok:
  "list_all pull_ok (map snd xs) \<Longrightarrow>
     fst (refresh_each xs) = Inr () \<and> snd (snd (refresh_each xs)) = map Refresh (map fst xs)"
  by (induction xs rule: refresh_each.induct) (auto simp: pull_ok_def split: prod.splits sum.splits)

lemma refresh_each_fails:
  "list_all pull_ok (map snd pre) \<Longrightarrow> fst (store_refresh s) = Inl e \<Longrightarrow>
     fst (refresh_each (pre @ (n, s) # post)) = Inl e \<and>
     snd (snd (refresh_each (pre @ (n, s) # post))) = map Refresh (map fst pre) @ [Refresh n] \<and>
     drop (Suc (length pre)) (fst (snd (refresh_each (pre @ (n, s) # post)))) = post"
  by (induction pre rule: refresh_each.induct) (auto simp: pull_ok_def split: prod.splits sum.splits)

lemma refresh_each_prefix:
  "snd (snd (refresh_each xs)) =
     map Refresh (take (Suc (length (takeWhile pull_ok (map snd xs)))) (map fst xs))"
  by (induction xs rule: refresh_each.induct) (auto simp: pull_ok_def split: prod.splits sum.splits)

lemma refresh_bulk:
  "a = None \<or> a = Some [] \<Longrightarrow>
     refresh a m =
       (case refresh_each (stores m) of
          (r, ss, cs) \<Rightarrow> (r, m\<lparr>stores := ss, calls := calls m @ cs\<rparr>))"
  by (auto simp: refresh_def)

lemma refresh_named:
  "n \<noteq> [] \<Longrightarrow>
     refresh (Some n) m =
       (case getStore (ByName n) m of
          Inl e \<Rightarrow> (Inl e, m)
        | Inr st \<Rightarrow>
            (case store_refresh st of
               (r, st') \<Rightarrow>
                 (r, m\<lparr>stores := AList.update n st' (stores m),
                       calls := calls m @ [Refresh n]\<rparr>)))"
  by (simp add: refresh_def split: sum.splits prod.splits)

lemma names_refresh: "map fst (stores (snd (refresh a m))) = map fst (stores m)"
proof (cases "a = None \<or> a = Some []")
  case True
  then show ?thesis
    using names_refresh_each [of "stores m"]
    by (auto simp: refresh_bulk split: prod.splits)
next
  case False
  then obtain n where "a = Some n" "n \<noteq> []" by auto
  then show ?thesis
    by (auto simp: refresh_named map_fst_update_present split: sum.splits prod.splits
        dest: getStore_Inr)
qed

lemma names_reset: "map fst (stores (reset m)) = map fst (stores m)"
  by (simp add: reset_def case_prod_unfold comp_def)

lemma names_destroy: "map fst (stores (destroy m)) = map fst (stores m)"
  by (simp add: destroy_def Let_def names_reset)

lemma names_set_value: "map fst (stores (set_value n v m)) = map fst (stores m)"
  by (simp add: set_value_def map_fst_map_entry)

lemma names_subscribeEvents: "map fst (stores (subscribeEvents ev m)) = map fst (stores m)"
  by (cases ev) (simp_all add: names_refresh names_set_value)

lemma names_create_instances:
  "fst ` set (stores (create_instances ts m)) =
     fst ` set (stores m) \<union> config_name ` set ts"
  by (induction ts arbitrary: m) (auto simp: AList.dom_update getStoreNameByType_def)

subsection \<open>The set of registered names\<close>

text \<open>
  Claim C9.  The names under which stores are registered are fixed once construction
  is over.  \<open>refresh\<close> (with or without a name, whatever its outcome), \<open>reset\<close>,
  \<open>destroy\<close>, every inbound event and a subscription to an observable obtained from
  \<open>select\<close> leave the list of keys of the store map as it was, in the same order;
  \<open>getStore\<close>, \<open>hasStore\<close>, \<open>get\<close> and \<open>select\<close> return no new manager at all.
  The constructor registers exactly the canonical names of the store types it is given.
\<close>

theorem store_names_fixed:
  "map fst (stores (snd (refresh a m))) = map fst (stores m) \<and>
   map fst (stores (reset m)) = map fst (stores m) \<and>
   map fst (stores (destroy m)) = map fst (stores m) \<and>
   map fst (stores (subscribeEvents ev m)) = map fst (stores m) \<and>
   map fst (stores (subscribe ob m)) = map fst (stores m) \<and>
   set (map fst (stores (constructor c all_stores))) = set (map config_name all_stores)"
proof (intro conjI)
  show "map fst (stores (snd (refresh a m))) = map fst (stores m)"
    by (rule names_refresh)
  show "map fst (stores (reset m)) = map fst (stores m)"
    by (rule names_reset)
  show "map fst (stores (destroy m)) = map fst (stores m)"
    by (rule names_destroy)
  show "map fst (stores (subscribeEvents ev m)) = map fst (stores m)"
    by (rule names_subscribeEvents)
  show "map fst (stores (subscribe ob m)) = map fst (stores m)"
    by (simp add: subscribe_def map_fst_map_entry)
  show "set (map fst (stores (constructor c all_stores))) = set (map config_name all_stores)"
    by (simp add: constructor_def initialize_def names_create_instances)
qed

subsection \<open>Reset\<close>

lemma current_store_reset: "current (store_reset s) = initial s"
  by (simp add: store_reset_def store_set_def)

lemma initial_store_reset: "initial (store_reset s) = initial s"
  by (simp add: store_reset_def store_set_def)

lemma snapshot_reset: "snapshot (reset m) = map (\<lambda>(n, s). (n, initial s)) (stores m)"
  by (simp add: snapshot_def reset_def case_prod_unfold comp_def current_store_reset)

lemma snapshot_reset_reset: "snapshot (reset (reset m)) = snapshot (reset m)"
  by (simp add: snapshot_reset) (simp add: reset_def case_prod_unfold comp_def initial_store_reset)

lemma calls_reset: "calls (reset m) = calls m @ map Reset (map fst (stores m))"
  by (simp add: reset_def case_prod_unfold comp_def)

lemma snapshot_reset_remote:
  "snapshot (reset (m\<lparr>stores := map (\<lambda>(n, s). (n, s\<lparr>remote := c\<rparr>)) (stores m)\<rparr>)) = snapshot (reset m)"
  by (simp add: snapshot_reset case_prod_unfold comp_def)

text \<open>
  Claim C8.  \<open>reset()\<close> calls \<open>reset()\<close> once on every registered store, in registry
  order, and makes no other call on a store; afterwards every store holds its built-in
  default.  The outcome does not depend on the remote player: with any other client
  \<open>c\<close> behind the stores, the values after \<open>reset()\<close> are the same, so nothing is
  pulled.  \<open>reset\<close> has no failing outcome (it returns a manager, never an error), and
  a second \<open>reset()\<close> right after the first leaves the store values as the first left
  them.
\<close>

theorem reset_restores_defaults:
  "calls (reset m) = calls m @ map Reset (map fst (stores m)) \<and>
   snapshot (reset m) = map (\<lambda>(n, s). (n, initial s)) (stores m) \<and>
   snapshot (reset (m\<lparr>stores := map (\<lambda>(n, s). (n, s\<lparr>remote := c\<rparr>)) (stores m)\<rparr>)) = snapshot (reset m) \<and>
   snapshot (reset (reset m)) = snapshot (reset m)"
  by (intro conjI calls_reset snapshot_reset snapshot_reset_remote snapshot_reset_reset)

subsection \<open>Destroy\<close>

lemma snapshot_destroy: "snapshot (destroy m) = snapshot (reset m)"
  by (simp add: destroy_def Let_def snapshot_def)

lemma reset_signal: "destroy_signal (reset m) = destroy_signal m"
  by (simp add: reset_def)

lemma stores_destroy: "stores (destroy m) = stores (reset m)"
  by (simp add: destroy_def Let_def)

lemma signal_destroy:
  "destroy_signal (destroy m) = subject_complete (subject_next (destroy_signal m))"
  by (simp add: destroy_def Let_def reset_signal)

lemma signal_twice:
  "subject_complete (subject_next (subject_complete (subject_next d))) =
     subject_complete (subject_next d)"
  by (simp add: subject_complete_def subject_next_def)

lemma destroy_not_live: "\<not> isStopped (destroy_signal m) \<Longrightarrow> \<not> events_live (destroy m)"
  by (simp add: events_live_def signal_destroy subject_next_def subject_complete_def)

lemma destroyed_drops_events: "\<not> events_live m \<Longrightarrow> subscribeEvents ev m = m"
  by (cases ev) simp_all

lemma destroy_stopped: "isStopped (destroy_signal (destroy m))"
  by (simp add: signal_destroy subject_complete_def)

lemma destroy_destroy_reset: "destroy (destroy m) = reset (destroy m)"
proof -
  let ?d = "destroy m"
  have "subject_complete (subject_next (destroy_signal ?d)) = destroy_signal ?d"
    using destroy_stopped [of m] by (simp add: subject_next_def subject_complete_def)
  then show ?thesis
    by (simp add: destroy_def [of ?d] Let_def reset_signal)
qed

lemma calls_destroy: "calls (destroy m) = calls m @ map Reset (map fst (stores m))"
  by (simp add: destroy_def Let_def calls_reset)

lemma snapshot_stores_cong: "stores m = stores m' \<Longrightarrow> snapshot (reset m) = snapshot (reset m')"
  by (simp add: snapshot_reset)

lemma subscriptions_reset: "subscriptions (reset m) = subscriptions m"
  by (simp add: subscriptions_def reset_def case_prod_unfold comp_def store_reset_def
      store_set_def notify_def)

lemma subscriptions_destroy: "subscriptions (destroy m) = subscriptions m"
  by (simp add: subscriptions_def stores_destroy) (simp add: subscriptions_reset [unfolded subscriptions_def])

text \<open>
  Claim C10.  A second \<open>destroy()\<close> is exactly one more \<open>reset()\<close>: on the stopped
  subject the second \<open>next()\<close> and \<open>complete()\<close> change nothing, so the registry
  after \<open>destroy(); destroy()\<close> is the registry after \<open>destroy(); reset()\<close>.  The
  second call makes one \<open>reset()\<close> call on every store, in registry order, and no
  other call.  After the first \<open>destroy()\<close> every store holds its default, and after
  the second it holds the same value; the same subscriptions are attached to the
  stores, the signal is stopped and in the same state, and the event subscriptions are
  as dead as before.  \<open>destroy\<close> has no failing outcome.  In the model of the store a
  reset notifies the store's subscriptions, so a subscription attached to a store is
  handed the default once more by the second call (lemma
  \<open>second_destroy_notifies_again\<close>).
\<close>

theorem destroy_twice:
  "destroy (destroy m) = reset (destroy m) \<and>
   calls (destroy (destroy m)) = calls (destroy m) @ map Reset (map fst (stores m)) \<and>
   snapshot (destroy m) = map (\<lambda>(n, s). (n, initial s)) (stores m) \<and>
   snapshot (destroy (destroy m)) = snapshot (destroy m) \<and>
   subscriptions (destroy (destroy m)) = subscriptions (destroy m) \<and>
   isStopped (destroy_signal (destroy m)) \<and>
   destroy_signal (destroy (destroy m)) = destroy_signal (destroy m) \<and>
   events_live (destroy (destroy m)) = events_live (destroy m)"
proof -
  have again: "destroy (destroy m) = reset (destroy m)"
    by (rule destroy_destroy_reset)
  have "calls (destroy (destroy m)) = calls (destroy m) @ map Reset (map fst (stores (destroy m)))"
    by (rule calls_destroy)
  then have resets: "calls (destroy (destroy m)) = calls (destroy m) @ map Reset (map fst (stores m))"
    by (simp add: names_destroy)
  have defaults: "snapshot (destroy m) = map (\<lambda>(n, s). (n, initial s)) (stores m)"
    by (simp add: snapshot_destroy snapshot_reset)
  have "snapshot (destroy (destroy m)) = snapshot (reset (reset m))"
    by (simp add: snapshot_destroy snapshot_stores_cong [OF stores_destroy])
  then have same: "snapshot (destroy (destroy m)) = snapshot (destroy m)"
    by (simp add: snapshot_destroy snapshot_reset_reset)
  have signal: "destroy_signal (destroy (destroy m)) = destroy_signal (destroy m)"
    by (simp add: signal_destroy signal_twice)
  have subs: "subscriptions (destroy (destroy m)) = subscriptions (destroy m)"
    by (simp add: subscriptions_destroy)
  from again resets defaults same signal subs destroy_stopped [of m] show ?thesis
    by (simp add: events_live_def)
qed

subsection \<open>Reading and writing one store\<close>

lemma get_map_of:
  "get (ByName k) key m =
     (case map_of (stores m) k of
        None \<Rightarrow> Inl (does_not_exist k)
      | Some s \<Rightarrow> Inr (store_get key s))"
  by (auto simp: get_def getStore_def hasStore_def split: option.splits)

lemma map_of_set_value:
  "map_of (stores (set_value n v m)) k =
     (if k = n then map_option (store_set v) (map_of (stores m) n) else map_of (stores m) k)"
  by (auto simp: set_value_def AList.map_of_map_entry split: option.splits)

lemma store_get_set: "store_get None (store_set v s) = v"
  by (simp add: store_get_def store_set_def)

lemma calls_refresh_named:
  "n \<noteq> [] \<Longrightarrow> hasStore (ByName n) m \<Longrightarrow> calls (snd (refresh (Some n) m)) = calls m @ [Refresh n]"
  by (simp add: refresh_named getStore_has split: prod.splits)


subsection \<open>The example registries\<close>

lemma signal_create_instances: "destroy_signal (create_instances ts m) = destroy_signal m"
  by (induction ts arbitrary: m) auto

lemma calls_create_instances: "calls (create_instances ts m) = calls m"
  by (induction ts arbitrary: m) auto

lemma constructor_live: "events_live (constructor c ts)"
  by (simp add: events_live_def constructor_def initialize_def signal_create_instances new_subject_def)

lemma constructor_calls: "calls (constructor c ts) = []"
  by (simp add: constructor_def initialize_def calls_create_instances)

lemma constructor_not_stopped: "\<not> isStopped (destroy_signal (constructor c ts))"
  by (simp add: constructor_def initialize_def signal_create_instances new_subject_def)

lemma example_stores:
  "stores example_registry =
     [(''volume'', new_store demo_client volume_type),
      (''playback'', new_store demo_client playback_type)]"
  by (simp add: example_registry_def constructor_def initialize_def getStoreNameByType_def
      volume_type_def playback_type_def)

lemma failing_stores:
  "stores failing_registry =
     [(''volume'', new_store failing_client volume_type),
      (''playback'', new_store failing_client playback_type)]"
  by (simp add: failing_registry_def constructor_def initialize_def getStoreNameByType_def
      volume_type_def playback_type_def)

lemma unnamed_stores:
  "stores unnamed_registry =
     [([], new_store demo_client unnamed_type),
      (''volume'', new_store demo_client volume_type)]"
  by (simp add: unnamed_registry_def constructor_def initialize_def getStoreNameByType_def
      volume_type_def unnamed_type_def)

lemma demo_pull: "store_refresh (new_store demo_client t) = (Inr (), store_set (Num 80) (new_store demo_client t))"
  by (simp add: store_refresh_def new_store_def demo_client_def)

lemma failing_pull_volume:
  "store_refresh (new_store failing_client volume_type) =
     (Inl (Error ''timeout''), new_store failing_client volume_type)"
  by (simp add: store_refresh_def new_store_def failing_client_def volume_type_def)

lemma example_live: "events_live example_registry"
  by (simp add: example_registry_def constructor_live)

lemma example_calls: "calls example_registry = []"
  by (simp add: example_registry_def constructor_calls)

lemma unnamed_live: "events_live unnamed_registry"
  by (simp add: unnamed_registry_def constructor_live)

lemma unnamed_calls: "calls unnamed_registry = []"
  by (simp add: unnamed_registry_def constructor_calls)

lemma unnamed_pulls: "list_all pull_ok (map snd (stores unnamed_registry))"
  by (simp add: unnamed_stores pull_ok_def demo_pull)

lemma example_pulls: "list_all pull_ok (map snd (stores example_registry))"
  by (simp add: example_stores pull_ok_def demo_pull)

lemma example_destroyed_dead: "\<not> events_live (destroy example_registry)"
  by (rule destroy_not_live) (simp add: example_registry_def constructor_not_stopped)

lemma example_destroyed_stores:
  "stores (destroy example_registry) =
     [(''volume'', store_reset (new_store demo_client volume_type)),
      (''playback'', store_reset (new_store demo_client playback_type))]"
  by (simp add: stores_destroy reset_def example_stores)

lemma example_destroyed_calls:
  "calls (destroy example_registry) = [Reset ''volume'', Reset ''playback'']"
  by (simp add: calls_destroy example_calls example_stores)

subsection \<open>State-delta and reset events\<close>

lemma delta_applied:
  "events_live m \<Longrightarrow> hasStore (ByName n) m \<Longrightarrow>
     get (ByName n) None (subscribeEvents (EventState n v) m) = Inr v"
  by (auto simp: get_map_of map_of_set_value hasStore_def store_get_set)

lemma delta_frame:
  "k \<noteq> n \<Longrightarrow>
     get (ByName k) key (subscribeEvents (EventState n v) m) = get (ByName k) key m"
  by (simp add: get_map_of map_of_set_value)

lemma delta_dropped:
  "\<not> hasStore (ByName n) m \<Longrightarrow> subscribeEvents (EventState n v) m = m"
  "\<not> hasStore (ByName n) m \<Longrightarrow> subscribeEvents (EventReset n v) m = m"
  by simp_all

text \<open>
  Claim C4, as amended.  On a registry whose event subscriptions are live (it has not
  been destroyed), a state-delta event \<open>{name, state}\<close> for a registered name makes
  \<open>get(name)\<close> return the carried state and leaves what \<open>get\<close> returns for every
  other name, with or without a key, as it was.  A state-delta or reset event that
  names an unregistered store leaves the whole registry as it was, the list of calls
  made on stores included; handling an event has no failing outcome.
\<close>

theorem state_delta_routed:
  "(events_live m \<and> hasStore (ByName n) m \<longrightarrow>
      get (ByName n) None (subscribeEvents (EventState n v) m) = Inr v \<and>
      (\<forall>k key. k \<noteq> n \<longrightarrow>
         get (ByName k) key (subscribeEvents (EventState n v) m) = get (ByName k) key m)) \<and>
   (\<not> hasStore (ByName n') m' \<longrightarrow>
      subscribeEvents (EventState n' v') m' = m' \<and>
      subscribeEvents (EventReset n' v') m' = m')"
  using delta_applied [of m n v] delta_frame [of _ n _ v m] delta_dropped [of n' m']
  by blast

text \<open>
  The spec's example: \<open>{name: "volume", state: 80}\<close> and \<open>{name: "unknown", state: 1}\<close> on
  the stores \<open>volume = 50\<close> and \<open>playback = "stopped"\<close>.
\<close>

theorem state_delta_routed_witness:
  "events_live example_registry \<and> hasStore (ByName ''volume'') example_registry \<and>
   get (ByName ''volume'') None
     (subscribeEvents (EventState ''volume'' (Num 80)) example_registry) = Inr (Num 80) \<and>
   get (ByName ''playback'') None
     (subscribeEvents (EventState ''volume'' (Num 80)) example_registry) = Inr (Str ''stopped'') \<and>
   \<not> hasStore (ByName ''unknown'') example_registry \<and>
   subscribeEvents (EventState ''unknown'' (Num 1)) example_registry = example_registry \<and>
   subscribeEvents (EventReset ''unknown'' (Num 1)) example_registry = example_registry"
proof -
  have live: "events_live example_registry"
    by (simp add: example_registry_def constructor_live)
  have has: "hasStore (ByName ''volume'') example_registry"
    by (simp add: hasStore_def example_stores)
  have unknown: "\<not> hasStore (ByName ''unknown'') example_registry"
    by (simp add: hasStore_def example_stores)
  have before: "get (ByName ''playback'') None example_registry = Inr (Str ''stopped'')"
    by (simp add: get_map_of example_stores store_get_def new_store_def playback_type_def)
  have other: "''playback'' \<noteq> ''volume''" by simp
  show ?thesis
    using live has unknown before other
      state_delta_routed [where m = example_registry and n = "''volume''" and v = "Num 80"
        and n' = "''unknown''" and m' = example_registry and v' = "Num 1"]
    by simp
qed

text \<open>
  Claim C4 as stated, for every registry state, fails on a destroyed registry: the
  subscription of lines 126 to 129 is piped through \<open>takeUntil(this.destroy$)\<close>, so
  after \<open>destroy()\<close> the store \<open>volume\<close> is still registered and a state-delta event
  that carries 80 leaves \<open>get("volume")\<close> at the default 50.
\<close>

theorem state_delta_dropped_after_destroy:
  "hasStore (ByName ''volume'') (destroy example_registry) \<and>
   get (ByName ''volume'') None (destroy example_registry) = Inr (Num 50) \<and>
   get (ByName ''volume'') None
     (subscribeEvents (EventState ''volume'' (Num 80)) (destroy example_registry)) =
     Inr (Num 50)"
proof -
  have has: "hasStore (ByName ''volume'') (destroy example_registry)"
    by (simp add: hasStore_def example_destroyed_stores)
  have held: "get (ByName ''volume'') None (destroy example_registry) = Inr (Num 50)"
    by (simp add: get_map_of example_destroyed_stores store_get_def current_store_reset
        new_store_def volume_type_def)
  have "subscribeEvents (EventState ''volume'' (Num 80)) (destroy example_registry) =
        destroy example_registry"
    using example_destroyed_dead by (rule destroyed_drops_events)
  with has held show ?thesis by simp
qed

subsection \<open>Refresh\<close>

lemma calls_refresh_bulk:
  "calls (snd (refresh None m)) =
     calls m @ map Refresh (take (Suc (length (takeWhile pull_ok (map snd (stores m)))))
                              (map fst (stores m)))"
  using refresh_each_prefix [of "stores m"]
  by (auto simp: refresh_bulk split: prod.splits)

lemma refresh_bulk_all_ok:
  "list_all pull_ok (map snd (stores m)) \<Longrightarrow>
     fst (refresh None m) = Inr () \<and>
     calls (snd (refresh None m)) = calls m @ map Refresh (map fst (stores m))"
  using refresh_each_all_ok [of "stores m"]
  by (auto simp: refresh_bulk split: prod.splits)

lemma refresh_bulk_fails:
  "stores m = pre @ (n, s) # post \<Longrightarrow> list_all pull_ok (map snd pre) \<Longrightarrow>
   fst (store_refresh s) = Inl e \<Longrightarrow>
     fst (refresh None m) = Inl e \<and>
     calls (snd (refresh None m)) = calls m @ map Refresh (map fst pre) @ [Refresh n] \<and>
     drop (Suc (length pre)) (stores (snd (refresh None m))) = post"
  using refresh_each_fails [of pre s e n post]
  by (auto simp: refresh_bulk split: prod.splits)

lemma refresh_named_fails:
  "n \<noteq> [] \<Longrightarrow> map_of (stores m) n = Some s \<Longrightarrow> fst (store_refresh s) = Inl e \<Longrightarrow>
     fst (refresh (Some n) m) = Inl e \<and>
     calls (snd (refresh (Some n) m)) = calls m @ [Refresh n]"
  by (auto simp: refresh_named getStore_def hasStore_def split: prod.splits)

lemma refresh_empty_name: "refresh (Some []) m = refresh None m"
  by (simp add: refresh_bulk)

text \<open>
  Claim C3.  Bulk \<open>refresh()\<close> awaits the stores one at a time in registry order.
  If the store \<open>n\<close> is the first whose \<open>refresh()\<close> fails, with error \<open>e\<close>, then
  \<open>refresh()\<close> fails with that same \<open>e\<close>, the calls it has made are one \<open>refresh()\<close>
  on each store up to and including \<open>n\<close>, in order and none twice, and the stores
  after \<open>n\<close> are untouched.  If no store fails, \<open>refresh()\<close> succeeds after exactly
  one call on each store, in registry order.  \<open>refresh(name)\<close> for a non-empty
  registered name whose store fails with \<open>e\<close> fails with that same \<open>e\<close> after one
  single call on the store; \<open>refresh("")\<close> is the bulk refresh.
\<close>

theorem refresh_failure_propagates:
  "(stores m = pre @ (n, s) # post \<and> list_all pull_ok (map snd pre) \<and>
    fst (store_refresh s) = Inl e \<longrightarrow>
      fst (refresh None m) = Inl e \<and>
      calls (snd (refresh None m)) = calls m @ map Refresh (map fst pre) @ [Refresh n] \<and>
      drop (Suc (length pre)) (stores (snd (refresh None m))) = post) \<and>
   (list_all pull_ok (map snd (stores m2)) \<longrightarrow>
      fst (refresh None m2) = Inr () \<and>
      calls (snd (refresh None m2)) = calls m2 @ map Refresh (map fst (stores m2))) \<and>
   (n3 \<noteq> [] \<and> map_of (stores m3) n3 = Some s3 \<and> fst (store_refresh s3) = Inl e3 \<longrightarrow>
      fst (refresh (Some n3) m3) = Inl e3 \<and>
      calls (snd (refresh (Some n3) m3)) = calls m3 @ [Refresh n3]) \<and>
   refresh (Some []) m4 = refresh None m4"
  using refresh_bulk_fails [of m pre n s post e] refresh_bulk_all_ok [of m2]
    refresh_named_fails [of n3 m3 s3 e3] refresh_empty_name [of m4]
  by blast

text \<open>
  The bulk and the named refresh on the registry whose \<open>volume\<close> store fails, and the
  bulk refresh on the registry where no store fails.
\<close>

theorem refresh_failure_propagates_witness:
  "stores failing_registry =
     [] @ (''volume'', new_store failing_client volume_type) #
          [(''playback'', new_store failing_client playback_type)] \<and>
   list_all pull_ok (map snd ([] :: (string \<times> store) list)) \<and>
   fst (store_refresh (new_store failing_client volume_type)) = Inl (Error ''timeout'') \<and>
   fst (refresh None failing_registry) = Inl (Error ''timeout'') \<and>
   calls (snd (refresh None failing_registry)) = [Refresh ''volume''] \<and>
   drop 1 (stores (snd (refresh None failing_registry))) =
     [(''playback'', new_store failing_client playback_type)] \<and>
   list_all pull_ok (map snd (stores example_registry)) \<and>
   fst (refresh None example_registry) = Inr () \<and>
   calls (snd (refresh None example_registry)) = [Refresh ''volume'', Refresh ''playback''] \<and>
   ''volume'' \<noteq> [] \<and>
   map_of (stores failing_registry) ''volume'' = Some (new_store failing_client volume_type) \<and>
   fst (refresh (Some ''volume'') failing_registry) = Inl (Error ''timeout'') \<and>
   calls (snd (refresh (Some ''volume'') failing_registry)) = [Refresh ''volume'']"
proof -
  have split: "stores failing_registry =
     [] @ (''volume'', new_store failing_client volume_type) #
          [(''playback'', new_store failing_client playback_type)]"
    by (simp add: failing_stores)
  have pre: "list_all pull_ok (map snd ([] :: (string \<times> store) list))" by simp
  have pull: "fst (store_refresh (new_store failing_client volume_type)) = Inl (Error ''timeout'')"
    by (simp add: failing_pull_volume)
  have named: "''volume'' \<noteq> []" by simp
  have found: "map_of (stores failing_registry) ''volume'' = Some (new_store failing_client volume_type)"
    by (simp add: failing_stores)
  have c1: "calls failing_registry = []" by (simp add: failing_registry_def constructor_calls)
  have c2: "calls example_registry = []" by (simp add: example_registry_def constructor_calls)
  show ?thesis
    using split pre pull named found example_pulls c1 c2
      refresh_failure_propagates [where m = failing_registry and pre = "[]" and n = "''volume''"
        and s = "new_store failing_client volume_type"
        and post = "[(''playback'', new_store failing_client playback_type)]"
        and e = "Error ''timeout''" and ?m2.0 = example_registry and ?n3.0 = "''volume''"
        and ?m3.0 = failing_registry and ?s3.0 = "new_store failing_client volume_type"
        and ?e3.0 = "Error ''timeout''"]
    by (simp add: example_stores)
qed

subsection \<open>Connect and entity-changed events\<close>

text \<open>
  Claim C5, as amended.  On a registry that has not been destroyed, a connect event
  calls \<open>refresh()\<close> on the stores in registry order, once each, up to and including
  the first store whose \<open>refresh()\<close> fails; when no refresh fails it calls \<open>refresh()\<close>
  exactly once on every registered store.  It makes no other call on a store, so no
  \<open>set()\<close>.
\<close>

theorem connect_refreshes_in_order:
  "events_live m \<Longrightarrow>
     calls (subscribeEvents Connect m) =
       calls m @ map Refresh (take (Suc (length (takeWhile pull_ok (map snd (stores m)))))
                                (map fst (stores m))) \<and>
     (list_all pull_ok (map snd (stores m)) \<longrightarrow>
        calls (subscribeEvents Connect m) = calls m @ map Refresh (map fst (stores m)))"
proof -
  assume "events_live m"
  then have "subscribeEvents Connect m = snd (refresh None m)"
    by simp
  then show ?thesis
    using calls_refresh_bulk [of m] refresh_bulk_all_ok [of m] by simp
qed

text \<open>A connect event on the example registry, where no pull fails.\<close>

theorem connect_refreshes_in_order_witness:
  "events_live example_registry \<and> list_all pull_ok (map snd (stores example_registry)) \<and>
   calls (subscribeEvents Connect example_registry) = [Refresh ''volume'', Refresh ''playback'']"
proof -
  have live: "events_live example_registry"
    by (simp add: example_registry_def constructor_live)
  have c: "calls example_registry = []" by (simp add: example_registry_def constructor_calls)
  show ?thesis
    using live example_pulls c connect_refreshes_in_order [of example_registry]
    by (simp add: example_stores)
qed

text \<open>
  Claim C5 as stated fails where a refresh fails: on the registry whose \<open>volume\<close>
  store fails, a connect event calls \<open>refresh()\<close> on \<open>volume\<close> and never on the
  registered store \<open>playback\<close>.
\<close>

theorem connect_skips_after_failure:
  "events_live failing_registry \<and> hasStore (ByName ''playback'') failing_registry \<and>
   calls (subscribeEvents Connect failing_registry) = [Refresh ''volume'']"
proof -
  have live: "events_live failing_registry"
    by (simp add: failing_registry_def constructor_live)
  have c: "calls failing_registry = []" by (simp add: failing_registry_def constructor_calls)
  have "takeWhile pull_ok (map snd (stores failing_registry)) = []"
    by (simp add: failing_stores pull_ok_def failing_pull_volume)
  then have "calls (snd (refresh None failing_registry)) = [Refresh ''volume'']"
    by (simp add: calls_refresh_bulk c failing_stores)
  with live show ?thesis
    by (simp add: hasStore_def failing_stores)
qed

text \<open>
  Claim C6, as amended.  On a registry that has not been destroyed, an entity-changed
  event whose name is non-empty and registered makes exactly one call on a store:
  \<open>refresh()\<close> on the named store.  It makes no \<open>set()\<close> call.
\<close>

theorem entity_event_refreshes_named:
  "events_live m \<Longrightarrow> hasStore (ByName n) m \<Longrightarrow> n \<noteq> [] \<Longrightarrow>
     calls (subscribeEvents (EventEntity n) m) = calls m @ [Refresh n]"
proof -
  assume live: "events_live m" and has: "hasStore (ByName n) m" and named: "n \<noteq> []"
  from live has have "subscribeEvents (EventEntity n) m = snd (refresh (Some n) m)"
    by simp
  with named has show ?thesis
    by (simp add: calls_refresh_named)
qed

text \<open>An entity-changed event for \<open>volume\<close> on the example registry.\<close>

theorem entity_event_refreshes_named_witness:
  "events_live example_registry \<and> hasStore (ByName ''volume'') example_registry \<and>
   ''volume'' \<noteq> [] \<and>
   calls (subscribeEvents (EventEntity ''volume'') example_registry) = [Refresh ''volume'']"
proof -
  have has: "hasStore (ByName ''volume'') example_registry"
    by (simp add: hasStore_def example_stores)
  have named: "''volume'' \<noteq> []" by simp
  show ?thesis
    using example_live has named example_calls
      entity_event_refreshes_named [of example_registry "''volume''"]
    by simp
qed

text \<open>
  Claim C6 as stated fails on a destroyed registry: the subscription of lines 136 to
  139 is piped through \<open>takeUntil(this.destroy$)\<close>, so after \<open>destroy()\<close> an
  entity-changed event for the registered store \<open>volume\<close> triggers no \<open>refresh()\<close>;
  the only calls made on stores are the two \<open>reset()\<close> calls of \<open>destroy()\<close>.
\<close>

theorem entity_event_dropped_after_destroy:
  "hasStore (ByName ''volume'') (destroy example_registry) \<and>
   calls (destroy example_registry) = [Reset ''volume'', Reset ''playback''] \<and>
   calls (subscribeEvents (EventEntity ''volume'') (destroy example_registry)) =
     [Reset ''volume'', Reset ''playback'']"
proof -
  have has: "hasStore (ByName ''volume'') (destroy example_registry)"
    by (simp add: hasStore_def example_destroyed_stores)
  have "subscribeEvents (EventEntity ''volume'') (destroy example_registry) =
        destroy example_registry"
    using example_destroyed_dead by (rule destroyed_drops_events)
  with has show ?thesis by (simp add: example_destroyed_calls)
qed

text \<open>
  The empty name is left out above because \<open>subscribeEvents\<close> hands the name to
  \<open>refresh\<close>, where the truthiness test of line 29 takes the empty string for a missing
  argument: were a store registered under the empty name, the event for it would run
  the bulk refresh.
\<close>

lemma entity_event_empty_name_refreshes_all:
  "events_live unnamed_registry \<and> hasStore (ByName []) unnamed_registry \<and>
   calls (subscribeEvents (EventEntity []) unnamed_registry) = [Refresh [], Refresh ''volume'']"
proof -
  have has: "hasStore (ByName []) unnamed_registry"
    by (simp add: hasStore_def unnamed_stores)
  have "calls (snd (refresh (Some []) unnamed_registry)) = [Refresh [], Refresh ''volume'']"
    using refresh_bulk_all_ok [OF unnamed_pulls]
    by (simp add: refresh_empty_name unnamed_calls unnamed_stores)
  with unnamed_live has show ?thesis by simp
qed

subsection \<open>The frame of a named refresh\<close>



lemma constructor_has_iff:
  "hasStore (ByName n) (constructor c all_stores) \<longleftrightarrow> n \<in> config_name ` set all_stores"
  by (simp add: hasStore_def map_of_eq_None_iff constructor_def initialize_def
      names_create_instances)





text \<open>
  Why the theorem is about registries with no store under the empty string: the
  truthiness test of line 29 takes the empty string for a missing argument, so on a
  registry built from a store type whose canonical name is empty, \<open>refresh("")\<close> takes
  the bulk branch and changes \<open>volume\<close> from 50 to 80.
\<close>

lemma refresh_empty_name_changes_others:
  "hasStore (ByName []) unnamed_registry \<and>
   get (ByName ''volume'') None unnamed_registry = Inr (Num 50) \<and>
   get (ByName ''volume'') None (snd (refresh (Some []) unnamed_registry)) = Inr (Num 80)"
proof -
  have has: "hasStore (ByName []) unnamed_registry"
    by (simp add: hasStore_def unnamed_stores)
  have before: "get (ByName ''volume'') None unnamed_registry = Inr (Num 50)"
    by (simp add: get_map_of unnamed_stores store_get_def new_store_def volume_type_def)
  have "stores (snd (refresh (Some []) unnamed_registry)) =
     [([], store_set (Num 80) (new_store demo_client unnamed_type)),
      (''volume'', store_set (Num 80) (new_store demo_client volume_type))]"
    by (simp add: refresh_bulk unnamed_stores demo_pull)
  then have after: "get (ByName ''volume'') None (snd (refresh (Some []) unnamed_registry)) = Inr (Num 80)"
    by (simp add: get_map_of store_get_set)
  from has before after show ?thesis by simp
qed

subsection \<open>Subscriptions of select and destroy\<close>

text \<open>
  The event subscriptions of the manager end with \<open>destroy()\<close>: on a registry that
  has not been destroyed yet, \<open>destroy()\<close> emits and completes the signal, and
  afterwards no inbound event changes anything in the registry.
\<close>

lemma destroy_ends_event_subscriptions:
  "\<not> isStopped (destroy_signal m) \<Longrightarrow>
     destroy_signal (destroy m) = \<lparr>emitted = Suc (emitted (destroy_signal m)), isStopped = True\<rparr> \<and>
     (\<forall>ev. subscribeEvents ev (destroy m) = destroy m)"
proof -
  assume running: "\<not> isStopped (destroy_signal m)"
  then have dead: "\<not> events_live (destroy m)"
    by (rule destroy_not_live)
  have "subscribeEvents ev (destroy m) = destroy m" for ev
    using dead by (rule destroyed_drops_events)
  with running show ?thesis
    by (simp add: signal_destroy subject_next_def subject_complete_def)
qed

text \<open>
  \<open>select\<close> does not look at the signal: it returns what the store's own \<open>select\<close>
  returns, whatever the state of \<open>destroy$\<close>; and \<open>destroy\<close> does to the stores what
  \<open>reset\<close> does, nothing more.
\<close>

lemma select_ignores_signal: "select x key (m\<lparr>destroy_signal := d\<rparr>) = select x key m"
  by (cases x) (simp_all add: select_def getStore_def hasStore_def Let_def)

lemma destroy_touches_stores_as_reset:
  "stores (destroy m) = stores (reset m) \<and> subscriptions (destroy m) = subscriptions m"
  by (simp add: stores_destroy subscriptions_destroy)

lemma example_select: "select (ByName ''volume'') None example_registry = Inr volume_changes"
  by (simp add: select_def getStore_def hasStore_def example_stores store_select_def
      new_store_def volume_type_def volume_changes_def)

lemma example_subscribed:
  "stores (subscribe volume_changes example_registry) =
     [(''volume'', store_subscribe None (new_store demo_client volume_type)),
      (''playback'', new_store demo_client playback_type)]"
  by (simp add: subscribe_def volume_changes_def example_stores)

lemma example_subscribed_destroyed:
  "stores (destroy (subscribe volume_changes example_registry)) =
     [(''volume'', store_reset (store_subscribe None (new_store demo_client volume_type))),
      (''playback'', store_reset (new_store demo_client playback_type))]"
  by (simp add: stores_destroy reset_def example_subscribed)

lemma example_subscribed_signal:
  "destroy_signal (destroy (subscribe volume_changes example_registry)) =
     \<lparr>emitted = 1, isStopped = True\<rparr>"
  by (simp add: signal_destroy subscribe_def example_registry_def constructor_def initialize_def
      signal_create_instances new_subject_def subject_next_def subject_complete_def)

text \<open>
  In the model of the store a reset notifies the store's subscriptions: a second
  \<open>destroy()\<close> hands the default to the subscription once more.
\<close>

lemma second_destroy_notifies_again:
  "deliveries ''volume'' 0 (destroy (destroy (subscribe volume_changes example_registry))) =
     [Num 50, Num 50]"
  by (simp add: deliveries_def stores_destroy [of "destroy (subscribe volume_changes example_registry)"]
      reset_def example_subscribed_destroyed store_reset_def store_set_def
      store_subscribe_def new_store_def volume_type_def notify_def)

text \<open>
  Claim C1, at the example registry.  The claim says that a subscription obtained
  from \<open>select()\<close> before \<open>destroy()\<close> emits nothing after \<open>destroy()\<close>, torn down by
  the shared signal.  In the code \<open>select\<close> (lines 89 to 92) returns the store's own
  observable with no \<open>takeUntil(this.destroy$)\<close>, and \<open>destroy$\<close> is never handed to a
  store.  On the example registry, with one subscription to \<open>select("volume")\<close>:
  \<open>destroy()\<close> emits and completes the signal and the event subscriptions are dead,
  but the subscription is still attached to its store, \<open>select("volume")\<close> still
  yields the same observable, the subscription has been handed the default 50 by the
  reset inside \<open>destroy()\<close>, and it is handed 80 by a \<open>refresh("volume")\<close> that runs
  after \<open>destroy()\<close>.
\<close>

theorem select_subscription_emits_after_destroy:
  "select (ByName ''volume'') None example_registry = Inr volume_changes \<and>
   destroy_signal (destroy (subscribe volume_changes example_registry)) =
     \<lparr>emitted = 1, isStopped = True\<rparr> \<and>
   events_live (destroy (subscribe volume_changes example_registry)) = False \<and>
   subscriptions (destroy (subscribe volume_changes example_registry)) =
     [(''volume'', [None]), (''playback'', [])] \<and>
   select (ByName ''volume'') None (destroy (subscribe volume_changes example_registry)) =
     Inr volume_changes \<and>
   deliveries ''volume'' 0 (destroy (subscribe volume_changes example_registry)) = [Num 50] \<and>
   deliveries ''volume'' 0
     (snd (refresh (Some ''volume'') (destroy (subscribe volume_changes example_registry)))) =
     [Num 50, Num 80]"
proof -
  let ?d = "destroy (subscribe volume_changes example_registry)"
  have dead: "events_live ?d = False"
    by (simp add: events_live_def example_subscribed_signal)
  have subs: "subscriptions ?d = [(''volume'', [None]), (''playback'', [])]"
    by (simp add: subscriptions_destroy)
       (simp add: subscriptions_def example_subscribed store_subscribe_def new_store_def)
  have "getStore (ByName ''volume'') ?d =
        Inr (store_reset (store_subscribe None (new_store demo_client volume_type)))"
    by (simp add: getStore_def hasStore_def example_subscribed_destroyed)
  then have again: "select (ByName ''volume'') None ?d = Inr volume_changes"
    by (simp add: select_def store_select_def store_reset_def store_set_def
        store_subscribe_def new_store_def volume_type_def volume_changes_def)
  have before: "deliveries ''volume'' 0 ?d = [Num 50]"
    by (simp add: deliveries_def example_subscribed_destroyed store_reset_def store_set_def
        store_subscribe_def new_store_def volume_type_def notify_def)
  have "stores (snd (refresh (Some ''volume'') ?d)) =
     [(''volume'', store_set (Num 80)
         (store_reset (store_subscribe None (new_store demo_client volume_type)))),
      (''playback'', store_reset (new_store demo_client playback_type))]"
    by (simp add: refresh_named getStore_def hasStore_def example_subscribed_destroyed
        store_refresh_def store_reset_def store_set_def store_subscribe_def new_store_def
        demo_client_def)
  then have after: "deliveries ''volume'' 0 (snd (refresh (Some ''volume'') ?d)) = [Num 50, Num 80]"
    by (simp add: deliveries_def store_reset_def store_set_def
        store_subscribe_def new_store_def volume_type_def notify_def)
  from example_select example_subscribed_signal dead subs again before after show ?thesis
    by simp
qed

subsection \<open>Unregistered identifiers\<close>

lemma hasStore_resolved: "hasStore x m \<longleftrightarrow> map_of (stores m) (resolved_name x) \<noteq> None"
  by (cases x) (simp_all add: hasStore_def resolved_name_def)

lemma getStore_unregistered:
  "map_of (stores m) (resolved_name x) = None \<Longrightarrow>
     getStore x m = Inl (does_not_exist (resolved_name x))"
  by (cases x) (simp_all add: getStore_def hasStore_def resolved_name_def)

lemma getStore_fails_iff:
  "(\<exists>e. getStore x m = Inl e) \<longleftrightarrow> map_of (stores m) (resolved_name x) = None"
  by (cases x) (auto simp: getStore_def hasStore_def resolved_name_def Let_def split: if_splits)

lemma get_unregistered:
  "map_of (stores m) (resolved_name x) = None \<Longrightarrow>
     get x key m = Inl (does_not_exist (resolved_name x))"
  by (simp add: get_def getStore_unregistered)

lemma select_unregistered:
  "map_of (stores m) (resolved_name x) = None \<Longrightarrow>
     select x key m = Inl (does_not_exist (resolved_name x))"
  by (simp add: select_def getStore_unregistered)

lemma refresh_unregistered:
  "n \<noteq> [] \<Longrightarrow> map_of (stores m) n = None \<Longrightarrow>
     refresh (Some n) m = (Inl (does_not_exist n), m)"
  by (simp add: refresh_named getStore_missing hasStore_def)

text \<open>
  What the code does with an identifier that resolves to no registered store.  For
  every identifier \<open>x\<close>, a plain name or a store type, \<open>getStore(x)\<close> fails if and only
  if the name \<open>x\<close> resolves to is not registered.  In that case the error is
  \<open>Store '<name>' does not exist!\<close> with that name, \<open>hasStore(x)\<close> is false, and
  \<open>get(x)\<close> and \<open>select(x)\<close>, with or without a key, fail with the same error.
  \<open>refresh(n)\<close> for a non-empty unregistered name \<open>n\<close> fails with the same error and
  changes nothing.
\<close>

lemma unregistered_identifier_rejected:
  "((\<exists>e. getStore x m = Inl e) \<longleftrightarrow> map_of (stores m) (resolved_name x) = None) \<and>
   (map_of (stores m) (resolved_name x) = None \<longrightarrow>
      getStore x m = Inl (does_not_exist (resolved_name x)) \<and>
      hasStore x m = False \<and>
      get x key m = Inl (does_not_exist (resolved_name x)) \<and>
      select x key m = Inl (does_not_exist (resolved_name x))) \<and>
   (n \<noteq> [] \<and> map_of (stores m) n = None \<longrightarrow>
      refresh (Some n) m = (Inl (does_not_exist n), m))"
proof (intro conjI impI)
  show "(\<exists>e. getStore x m = Inl e) \<longleftrightarrow> map_of (stores m) (resolved_name x) = None"
    by (rule getStore_fails_iff)
next
  assume missing: "map_of (stores m) (resolved_name x) = None"
  from missing show "getStore x m = Inl (does_not_exist (resolved_name x))"
    by (rule getStore_unregistered)
  from missing show "hasStore x m = False"
    by (simp add: hasStore_resolved)
  from missing show "get x key m = Inl (does_not_exist (resolved_name x))"
    by (rule get_unregistered)
  from missing show "select x key m = Inl (does_not_exist (resolved_name x))"
    by (rule select_unregistered)
next
  assume "n \<noteq> [] \<and> map_of (stores m) n = None"
  then show "refresh (Some n) m = (Inl (does_not_exist n), m)"
    by (simp add: refresh_unregistered)
qed

text \<open>
  The store type \<open>unnamed_type\<close> and the name \<open>unknown\<close> on the example registry,
  where neither is registered.
\<close>

lemma unregistered_identifier_rejected_example:
  "map_of (stores example_registry) (resolved_name (ByType unnamed_type)) = None \<and>
   getStore (ByType unnamed_type) example_registry = Inl (does_not_exist []) \<and>
   hasStore (ByType unnamed_type) example_registry = False \<and>
   get (ByType unnamed_type) None example_registry = Inl (does_not_exist []) \<and>
   select (ByType unnamed_type) None example_registry = Inl (does_not_exist []) \<and>
   ''unknown'' \<noteq> [] \<and> map_of (stores example_registry) ''unknown'' = None \<and>
   refresh (Some ''unknown'') example_registry =
     (Inl (does_not_exist ''unknown''), example_registry)"
proof -
  have name: "resolved_name (ByType unnamed_type) = []"
    by (simp add: resolved_name_def getStoreNameByType_def unnamed_type_def)
  have missing: "map_of (stores example_registry) (resolved_name (ByType unnamed_type)) = None"
    by (simp add: name example_stores)
  have named: "''unknown'' \<noteq> []" by simp
  have unknown: "map_of (stores example_registry) ''unknown'' = None"
    by (simp add: example_stores)
  show ?thesis
    using missing named unknown
      unregistered_identifier_rejected [where x = "ByType unnamed_type" and m = example_registry
        and n = "''unknown''" and key = None]
    by (simp add: name)
qed

text \<open>
  Claim C2, at the identifier \<open>""\<close> on the example registry, where no store has that
  name.  The claim says that \<open>getStore\<close> fails with the error naming the identifier
  exactly on the unregistered identifiers, that \<open>hasStore\<close> is false there, and that
  \<open>get\<close>, \<open>select\<close> and \<open>refresh(name)\<close> fail with the same error.  At \<open>""\<close>
  \<open>hasStore\<close> is false and \<open>getStore\<close>, \<open>get\<close> and \<open>select\<close> fail with that error,
  but \<open>refresh("")\<close> does not fail: the truthiness test of line 29 takes the empty
  string for a missing argument and sends it to the bulk branch, which calls
  \<open>refresh()\<close> on every store and resolves.
\<close>

theorem refresh_empty_name_not_rejected:
  "hasStore (ByName []) example_registry = False \<and>
   getStore (ByName []) example_registry = Inl (does_not_exist []) \<and>
   get (ByName []) None example_registry = Inl (does_not_exist []) \<and>
   select (ByName []) None example_registry = Inl (does_not_exist []) \<and>
   fst (refresh (Some []) example_registry) = Inr () \<and>
   calls (snd (refresh (Some []) example_registry)) = [Refresh ''volume'', Refresh ''playback'']"
proof -
  have missing: "map_of (stores example_registry) (resolved_name (ByName [])) = None"
    by (simp add: resolved_name_def example_stores)
  have "fst (refresh (Some []) example_registry) = Inr () \<and>
        calls (snd (refresh (Some []) example_registry)) = [Refresh ''volume'', Refresh ''playback'']"
    using refresh_bulk_all_ok [OF example_pulls]
    by (simp add: refresh_empty_name example_calls example_stores)
  with missing show ?thesis
    using getStore_unregistered [OF missing] get_unregistered [OF missing]
      select_unregistered [OF missing]
    by (simp add: hasStore_resolved resolved_name_def)
qed

end
